theory Spec2Isabelle
  imports Main "HOL-Library.Word"
begin

section \<open>pdf\_to\_text\_temp.py: page-by-page text extraction\<close>

text \<open>
  The script is nineteen lines of module-level Python. It checks \<open>sys.argv\<close>, opens the
  source with \<open>pypdf.PdfReader\<close>, builds one section per page, joins the sections and
  hands the result to \<open>Path.write_text\<close>, then prints a completion line. The embedding
  follows it line by line; what the script calls but does not define (pypdf, pathlib, the
  operating system) is a \<open>platform\<close> record of parameters plus the documented behaviour of
  the Python built-ins.
\<close>

subsection \<open>Python values\<close>

text \<open>
  A Python \<open>str\<close> is a sequence of Unicode code points, a file holds bytes. Literals of
  the script are ASCII and are written through \<open>lit\<close>.
\<close>

type_synonym str = "nat list"
type_synonym byte = "8 word"

definition lit :: "string \<Rightarrow> str" where
  "lit s = map of_char s"

text \<open>The exceptions that can travel through the script.\<close>

datatype exn =
    SystemExit str
  | FileNotFoundError
  | UnicodeEncodeError
  | OtherError string

text \<open>
  \<open>str(i)\<close> for an \<open>int\<close>, as the f-string fields \<open>{idx}\<close> and
  \<open>{len(reader.pages)}\<close> render it: decimal digits, a minus sign when negative.
\<close>

fun str_nat :: "nat \<Rightarrow> str" where
  "str_nat n = (if n < 10 then [48 + n] else str_nat (n div 10) @ [48 + n mod 10])"

declare str_nat.simps [simp del]

definition str_int :: "int \<Rightarrow> str" where
  "str_int i = (if i < 0 then 45 # str_nat (nat (- i)) else str_nat (nat i))"

text \<open>\<open>sep.join(xs)\<close>.\<close>

fun join :: "str \<Rightarrow> str list \<Rightarrow> str" where
  "join sep [] = []"
| "join sep [x] = x"
| "join sep (x # y # ys) = x @ sep @ join sep (y # ys)"

subsection \<open>The document library\<close>

text \<open>
  A page is consumed through \<open>page.extract_text()\<close> only: the call raises, returns
  \<open>None\<close>, or returns a \<open>str\<close>. The page is modelled by that outcome, so
  extraction is a function of the page.
\<close>

datatype page = Page (extract_text: "exn + str option")

text \<open>\<open>x or ""\<close>: a falsy \<open>x\<close> (\<open>None\<close> or the empty string) gives the empty string.\<close>

fun or_empty :: "str option \<Rightarrow> str" where
  "or_empty None = []"
| "or_empty (Some s) = (if s = [] then [] else s)"

text \<open>The f-string of line 16.\<close>

definition section_str :: "int \<Rightarrow> str \<Rightarrow> str" where
  "section_str idx text' = lit ''--- PAGE '' @ str_int idx @ lit '' ---\<newline>'' @ text'"

text \<open>
  Lines 13 to 16: the \<open>for\<close> loop over \<open>enumerate(reader.pages, start=1)\<close>, with the
  running index, the pages still to visit and the list \<open>sections\<close> built so far. An
  exception of \<open>extract_text\<close> leaves the loop at once.
\<close>

fun extract_loop :: "int \<Rightarrow> page list \<Rightarrow> str list \<Rightarrow> exn + str list" where
  "extract_loop idx [] sections = Inr sections"
| "extract_loop idx (p # rest) sections =
     (case extract_text p of
        Inl e \<Rightarrow> Inl e
      | Inr r \<Rightarrow> extract_loop (idx + 1) rest (sections @ [section_str idx (or_empty r)]))"

text \<open>The argument of \<open>write_text\<close> on line 18: the Output text.\<close>

definition output_text :: "page list \<Rightarrow> exn + str" where
  "output_text pages =
     (case extract_loop 1 pages [] of
        Inl e \<Rightarrow> Inl e
      | Inr sections \<Rightarrow> Inr (join (lit ''\<newline>\<newline>'') sections))"

subsection \<open>The world outside the script\<close>

text \<open>
  The file system maps a path to the bytes of the file there. \<open>fs_log\<close> records the
  calls the script makes on a path, in order; \<open>stdout\<close> is the text written to standard
  output.
\<close>

datatype fs_call = PdfReaderCall str | WriteTextCall str str

record world =
  files :: "str \<Rightarrow> byte list option"
  stdout :: str
  fs_log :: "fs_call list"

text \<open>
  What the script does not decide:
  \<^item> \<open>path_str\<close>: \<open>str(Path(s))\<close>, pathlib's rendering of a path;
  \<^item> \<open>pdf_parse\<close>: pypdf on the bytes of an existing file, a parse error or the pages;
  \<^item> \<open>open_for_write\<close>: whether opening a path in mode \<open>'w'\<close> fails (missing parent
    directory, permission denied);
  \<^item> \<open>write_fault\<close>: whether writing the bytes fails after the file is open (disk full,
    I/O error), and how many bytes reached the file;
  \<^item> \<open>linesep\<close>: \<open>os.linesep\<close>;
  \<^item> \<open>stdout_fault\<close>: what goes wrong with a text sent to standard output, if anything.
    \<open>print\<close> itself raises when the stream cannot encode the text (a path outside the
    stream's encoding) or cannot take it (a closed or full stream that is written through
    at once); a buffered stream accepts the text and fails only when the interpreter
    flushes it at shutdown.
\<close>

datatype stdout_fault = PrintRaises exn | FlushFails

record platform =
  path_str :: "str \<Rightarrow> str"
  pdf_parse :: "byte list \<Rightarrow> exn + page list"
  open_for_write :: "(str \<Rightarrow> byte list option) \<Rightarrow> str \<Rightarrow> exn option"
  write_fault :: "str \<Rightarrow> byte list \<Rightarrow> (exn \<times> nat) option"
  linesep :: str
  stdout_fault :: "str \<Rightarrow> stdout_fault option"

text \<open>\<open>PdfReader(source)\<close>, line 12: reads the whole file, then parses it.\<close>

definition PdfReader :: "platform \<Rightarrow> world \<Rightarrow> str \<Rightarrow> exn + page list" where
  "PdfReader pf w source =
     (case files w source of
        None \<Rightarrow> Inl FileNotFoundError
      | Some bytes \<Rightarrow> pdf_parse pf bytes)"

text \<open>
  The \<open>utf-8\<close> codec with \<open>errors='strict'\<close>: one to four bytes per code point, and
  \<open>UnicodeEncodeError\<close> on a surrogate (U+D800 to U+DFFF).
\<close>

definition utf8_char :: "nat \<Rightarrow> exn + byte list" where
  "utf8_char c =
     (if c < 0x80 then Inr [word_of_nat c]
      else if c < 0x800 then
        Inr [word_of_nat (0xC0 + c div 64), word_of_nat (0x80 + c mod 64)]
      else if 0xD800 \<le> c \<and> c < 0xE000 then Inl UnicodeEncodeError
      else if c < 0x10000 then
        Inr [word_of_nat (0xE0 + c div 4096), word_of_nat (0x80 + c div 64 mod 64),
             word_of_nat (0x80 + c mod 64)]
      else
        Inr [word_of_nat (0xF0 + c div 262144), word_of_nat (0x80 + c div 4096 mod 64),
             word_of_nat (0x80 + c div 64 mod 64), word_of_nat (0x80 + c mod 64)])"

fun utf8_encode :: "str \<Rightarrow> exn + byte list" where
  "utf8_encode [] = Inr []"
| "utf8_encode (c # cs) =
     (case utf8_char c of
        Inl e \<Rightarrow> Inl e
      | Inr bs \<Rightarrow> (case utf8_encode cs of Inl e \<Rightarrow> Inl e | Inr rest \<Rightarrow> Inr (bs @ rest)))"

text \<open>
  Text mode with \<open>newline=None\<close>, the default that line 18 leaves in place: on output
  every \<open>"\n"\<close> becomes \<open>os.linesep\<close>.
\<close>

fun translate_newlines :: "str \<Rightarrow> str \<Rightarrow> str" where
  "translate_newlines nl [] = []"
| "translate_newlines nl (c # cs) =
     (if c = 10 then nl @ translate_newlines nl cs else c # translate_newlines nl cs)"

text \<open>
  \<open>target.write_text(data, encoding="utf-8")\<close>, line 18. pathlib opens the path in mode
  \<open>'w'\<close>, which creates the file or truncates it, and then writes \<open>data\<close> to the open
  file: newline translation, encoding, bytes to the file. A failure of the open leaves the
  file system as it was; a later failure leaves what had reached the file.
\<close>

definition write_text :: "platform \<Rightarrow> str \<Rightarrow> str \<Rightarrow> world \<Rightarrow> exn option \<times> world" where
  "write_text pf target data w =
     (let w0 = w\<lparr>fs_log := fs_log w @ [WriteTextCall target data]\<rparr> in
      case open_for_write pf (files w) target of
        Some e \<Rightarrow> (Some e, w0)
      | None \<Rightarrow>
          (case utf8_encode (translate_newlines (linesep pf) data) of
             Inl e \<Rightarrow> (Some e, w0\<lparr>files := (files w)(target \<mapsto> [])\<rparr>)
           | Inr bytes \<Rightarrow>
               (case write_fault pf target bytes of
                  Some (e, k) \<Rightarrow> (Some e, w0\<lparr>files := (files w)(target \<mapsto> take k bytes)\<rparr>)
                | None \<Rightarrow> (None, w0\<lparr>files := (files w)(target \<mapsto> bytes)\<rparr>))))"

text \<open>
  \<open>print(s)\<close>: the text and a newline on standard output, unless the stream refuses
  them; then nothing of the text reaches standard output.
\<close>

definition print :: "platform \<Rightarrow> str \<Rightarrow> world \<Rightarrow> stdout_fault option \<times> world" where
  "print pf s w =
     (case stdout_fault pf (s @ [10]) of
        None \<Rightarrow> (None, w\<lparr>stdout := stdout w @ s @ [10]\<rparr>)
      | Some fault \<Rightarrow> (Some fault, w))"

subsection \<open>The script\<close>

text \<open>
  How the process ends: the module body ran to its end and the interpreter shut down
  cleanly; an exception left the module body; or the module body ran to its end and the
  interpreter could not flush standard output at shutdown.
\<close>

datatype outcome = Completed | Raised exn | FlushFailed

text \<open>The f-string of line 19.\<close>

definition completion_message :: "platform \<Rightarrow> str \<Rightarrow> page list \<Rightarrow> str" where
  "completion_message pf target pages =
     lit ''Wrote '' @ path_str pf target @ lit '' ('' @ str_int (int (length pages)) @ lit '' pages)''"

text \<open>
  Line 19 is the last statement: after \<open>print\<close> the module body is over and the
  interpreter shuts down.
\<close>

fun process_end :: "stdout_fault option \<times> world \<Rightarrow> outcome \<times> world" where
  "process_end (None, w) = (Completed, w)"
| "process_end (Some (PrintRaises e), w) = (Raised e, w)"
| "process_end (Some FlushFails, w) = (FlushFailed, w)"

definition usage :: str where
  "usage = lit ''Usage: python pdf_to_text_temp.py <input.pdf> <output.txt>''"

text \<open>
  The module body. \<open>argv\<close> is \<open>sys.argv\<close>, the script name first. \<open>Path(s)\<close> keeps the
  string it was built from, so the file system is addressed by \<open>argv[1]\<close> and
  \<open>argv[2]\<close>; only the f-string of line 19 renders the path. The reader holds the
  pages it parsed, so \<open>len(reader.pages)\<close> on line 19 counts the list the loop went
  through. Building a \<open>Path\<close> is taken not to raise. There is no \<open>try\<close> in the
  script: each stage that raises ends the run with that exception.
\<close>

definition main :: "platform \<Rightarrow> str list \<Rightarrow> world \<Rightarrow> outcome \<times> world" where
  "main pf argv w =
     (if length argv < 3 then (Raised (SystemExit usage), w)
      else
        let source = argv ! 1; target = argv ! 2;
            w1 = w\<lparr>fs_log := fs_log w @ [PdfReaderCall source]\<rparr>
        in case PdfReader pf w source of
             Inl e \<Rightarrow> (Raised e, w1)
           | Inr pages \<Rightarrow>
               (case output_text pages of
                  Inl e \<Rightarrow> (Raised e, w1)
                | Inr out \<Rightarrow>
                    (case write_text pf target out w1 of
                       (Some e, w2) \<Rightarrow> (Raised e, w2)
                     | (None, w2) \<Rightarrow>
                         process_end (print pf (completion_message pf target pages) w2))))"

text \<open>
  The interpreter at the process boundary: status 0 after a clean shutdown; an uncaught
  exception gives status 1, and so does \<open>SystemExit\<close> with a string argument, which is
  printed on standard error; status 120 when standard output could not be flushed at
  shutdown.
\<close>

fun exit_status :: "outcome \<Rightarrow> int" where
  "exit_status Completed = 0"
| "exit_status (Raised e) = 1"
| "exit_status FlushFailed = 120"

fun stderr_text :: "outcome \<Rightarrow> str option" where
  "stderr_text (Raised (SystemExit msg)) = Some (msg @ [10])"
| "stderr_text _ = None"

subsection \<open>The specification's reading of the output\<close>

text \<open>
  The Section of page \<open>i\<close> in the words of the specification: the marker line, then the
  page text, an absent extraction result standing for the empty string. \<open>returned rs\<close> is
  a document whose pages extract to \<open>rs\<close> without raising.
\<close>

definition spec_section :: "int \<Rightarrow> str option \<Rightarrow> str" where
  "spec_section i r =
     lit ''--- PAGE '' @ str_int i @ lit '' ---\<newline>'' @ (case r of None \<Rightarrow> [] | Some t \<Rightarrow> t)"

definition spec_sections :: "str option list \<Rightarrow> str list" where
  "spec_sections rs = map (\<lambda>(i, r). spec_section i r) (zip [1..int (length rs)] rs)"

definition returned :: "str option list \<Rightarrow> page list" where
  "returned rs = map (\<lambda>r. Page (Inr r)) rs"

text \<open>The number a string of decimal digits denotes, to read a marker's index back.\<close>

definition decimal_value :: "str \<Rightarrow> nat" where
  "decimal_value ds = foldl (\<lambda>a d. 10 * a + (d - 48)) 0 ds"

subsection \<open>Concrete runs\<close>

text \<open>
  A platform on which nothing fails (\<open>"\n"\<close> as line separator, paths rendered as
  given), a file system holding \<open>in.pdf\<close>, and the command line
  \<open>pdf_to_text_temp.py in.pdf out.txt\<close>.
\<close>

definition demo_platform :: "page list \<Rightarrow> platform" where
  "demo_platform pages =
     \<lparr>path_str = (\<lambda>s. s), pdf_parse = (\<lambda>bytes. Inr pages),
      open_for_write = (\<lambda>fs p. None), write_fault = (\<lambda>p bytes. None), linesep = [10],
      stdout_fault = (\<lambda>s. None)\<rparr>"

definition demo_world :: world where
  "demo_world = \<lparr>files = [lit ''in.pdf'' \<mapsto> [0x25, 0x50, 0x44, 0x46]], stdout = [], fs_log = []\<rparr>"

definition demo_argv :: "str list" where
  "demo_argv = [lit ''pdf_to_text_temp.py'', lit ''in.pdf'', lit ''out.txt'']"

text \<open>
  The same platform with a disk that accepts \<open>k\<close> bytes of a write and then reports
  that it is full.
\<close>

definition disk_full :: "nat \<Rightarrow> platform \<Rightarrow> platform" where
  "disk_full k pf = pf\<lparr>write_fault := (\<lambda>p bytes. Some (OtherError ''OSError: No space left on device'', k))\<rparr>"

section \<open>Properties\<close>

subsection \<open>Rendering of numbers\<close>

lemma str_nat_digits: "\<forall>d \<in> set (str_nat n). 48 \<le> d \<and> d \<le> 57"
proof (induction n rule: str_nat.induct)
  case (1 n)
  show ?case
  proof (cases "n < 10")
    case True
    then show ?thesis by (subst str_nat.simps) simp
  next
    case False
    have "n mod 10 < 10" by simp
    then have "48 + n mod 10 \<le> 57" by linarith
    with False 1 show ?thesis by (subst str_nat.simps) auto
  qed
qed

lemma str_nat_value: "decimal_value (str_nat n) = n"
proof (induction n rule: str_nat.induct)
  case (1 n)
  show ?case
  proof (cases "n < 10")
    case True
    then show ?thesis by (subst str_nat.simps) (simp add: decimal_value_def)
  next
    case False
    with 1 have "decimal_value (str_nat (n div 10)) = n div 10" by simp
    with False show ?thesis
      by (subst str_nat.simps) (simp add: decimal_value_def)
  qed
qed

subsection \<open>The loop over the pages\<close>

lemma extract_loop_all_returned:
  "extract_loop idx (map (\<lambda>r. Page (Inr r)) rs) acc =
     Inr (acc @ map (\<lambda>(i, r). section_str i (or_empty r)) (zip [idx..idx + int (length rs) - 1] rs))"
proof (induction rs arbitrary: idx acc)
  case Nil
  then show ?case by simp
next
  case (Cons r rs)
  have bound: "idx + int (length (r # rs)) - 1 = idx + 1 + int (length rs) - 1"
    by simp
  have "[idx..idx + int (length (r # rs)) - 1] = idx # [idx + 1..idx + 1 + int (length rs) - 1]"
    unfolding bound by (rule upto_rec1) simp
  then show ?case using Cons.IH [of "idx + 1"] by simp
qed

lemma or_empty_case: "or_empty r = (case r of None \<Rightarrow> [] | Some t \<Rightarrow> t)"
  by (cases r) simp_all

lemma translate_newlines_lf: "translate_newlines [10] s = s"
  by (induction s) simp_all

lemma section_str_spec: "section_str i (or_empty r) = spec_section i r"
  by (simp add: section_str_def spec_section_def or_empty_case)

lemma extract_loop_spec_sections:
  "extract_loop 1 (returned rs) [] = Inr (spec_sections rs)"
  using extract_loop_all_returned [of 1 rs "[]"]
  by (simp add: returned_def spec_sections_def section_str_spec)

lemma length_spec_sections: "length (spec_sections rs) = length rs"
  by (simp add: spec_sections_def)

lemma nth_spec_sections:
  assumes "k < length rs"
  shows "spec_sections rs ! k = spec_section (int k + 1) (rs ! k)"
proof -
  have "[1..int (length rs)] ! k = 1 + int k"
    using assms by (intro nth_upto) simp
  with assms show ?thesis
    by (simp add: spec_sections_def add.commute)
qed

subsection \<open>Writing the file\<close>

lemma write_text_log:
  "fs_log (snd (write_text pf target data w)) = fs_log w @ [WriteTextCall target data]"
  by (simp add: write_text_def Let_def split: option.splits sum.splits prod.splits)

lemma write_text_stdout: "stdout (snd (write_text pf target data w)) = stdout w"
  by (simp add: write_text_def Let_def split: option.splits sum.splits prod.splits)

lemma write_text_other_files:
  "p \<noteq> target \<Longrightarrow> files (snd (write_text pf target data w)) p = files w p"
  by (simp add: write_text_def Let_def split: option.splits sum.splits prod.splits)

lemma write_text_success:
  assumes "write_text pf target data w = (None, w')"
  shows "\<exists>bytes. utf8_encode (translate_newlines (linesep pf) data) = Inr bytes
           \<and> files w' = (files w)(target \<mapsto> bytes)"
  using assms
  by (auto simp: write_text_def Let_def split: option.splits sum.splits prod.splits)

lemma write_text_open_fails:
  assumes "open_for_write pf (files w) target = Some e"
  shows "write_text pf target data w = (Some e, w\<lparr>fs_log := fs_log w @ [WriteTextCall target data]\<rparr>)"
  using assms by (simp add: write_text_def Let_def)

subsection \<open>The completion line and the end of the process\<close>

lemma report_files: "files (snd (process_end (print pf s w))) = files w"
  by (cases "stdout_fault pf (s @ [10])" rule: option.exhaust [case_names None Some],
      simp add: print_def, rename_tac fault, case_tac fault, simp_all add: print_def)

lemma report_log: "fs_log (snd (process_end (print pf s w))) = fs_log w"
  by (cases "stdout_fault pf (s @ [10])" rule: option.exhaust [case_names None Some],
      simp add: print_def, rename_tac fault, case_tac fault, simp_all add: print_def)

lemma report_completed_iff:
  "fst (process_end (print pf s w)) = Completed \<longleftrightarrow> stdout_fault pf (s @ [10]) = None"
  by (cases "stdout_fault pf (s @ [10])" rule: option.exhaust [case_names None Some],
      simp add: print_def, rename_tac fault, case_tac fault, simp_all add: print_def)

lemma report_raised_iff:
  "fst (process_end (print pf s w)) = Raised e \<longleftrightarrow> stdout_fault pf (s @ [10]) = Some (PrintRaises e)"
  by (cases "stdout_fault pf (s @ [10])" rule: option.exhaust [case_names None Some],
      simp add: print_def, rename_tac fault, case_tac fault, simp_all add: print_def)

lemma report_flush_iff:
  "fst (process_end (print pf s w)) = FlushFailed \<longleftrightarrow> stdout_fault pf (s @ [10]) = Some FlushFails"
  by (cases "stdout_fault pf (s @ [10])" rule: option.exhaust [case_names None Some],
      simp add: print_def, rename_tac fault, case_tac fault, simp_all add: print_def)

lemma report_completed:
  assumes "process_end (print pf s w) = (Completed, w')"
  shows "w' = w\<lparr>stdout := stdout w @ s @ [10]\<rparr>"
proof -
  from assms have "fst (process_end (print pf s w)) = Completed" by simp
  then have "stdout_fault pf (s @ [10]) = None" by (simp add: report_completed_iff)
  with assms show ?thesis by (simp add: print_def)
qed

lemma three_pages_message:
  "completion_message pf target
     [Page (Inr (Some (lit ''Hello''))), Page (Inr (Some [])), Page (Inr (Some (lit ''World'')))] @ [10]
   = lit ''Wrote '' @ path_str pf target @ lit '' (3 pages)\<newline>''"
  by (simp add: completion_message_def str_int_def str_nat.simps lit_def)

subsection \<open>Output text\<close>

text \<open>
  C1. For a document whose \<open>N\<close> pages extract to \<open>rs\<close> (none raising), the Output text
  is the join with separator \<open>"\n\n"\<close> of the Sections
  \<open>"--- PAGE i ---\n" + t\<^sub>i\<close> for \<open>i = 1..N\<close> in page order, where an absent result
  counts as the empty text. There are exactly \<open>N\<close> Sections, the \<open>k\<close>-th (from 0)
  carrying the marker numbered \<open>k + 1\<close>, and a document without pages gives the empty
  Output text.
\<close>

theorem output_text_join_sections:
  "output_text (returned rs) = Inr (join (lit ''\<newline>\<newline>'') (spec_sections rs))
   \<and> length (spec_sections rs) = length rs
   \<and> (\<forall>k<length rs. spec_sections rs ! k =
         lit ''--- PAGE '' @ str_int (int k + 1) @ lit '' ---\<newline>'' @
         (case rs ! k of None \<Rightarrow> [] | Some t \<Rightarrow> t))
   \<and> output_text (returned []) = Inr []"
proof (intro conjI allI impI)
  show "output_text (returned rs) = Inr (join (lit ''\<newline>\<newline>'') (spec_sections rs))"
    by (simp add: output_text_def extract_loop_spec_sections)
  show "length (spec_sections rs) = length rs"
    by (rule length_spec_sections)
  show "spec_sections rs ! k =
         lit ''--- PAGE '' @ str_int (int k + 1) @ lit '' ---\<newline>'' @
         (case rs ! k of None \<Rightarrow> [] | Some t \<Rightarrow> t)" if "k < length rs" for k
    using that by (simp add: nth_spec_sections spec_section_def)
  show "output_text (returned []) = Inr []"
    by (simp add: output_text_def returned_def)
qed

theorem output_text_join_sections_witness:
  "output_text (returned [Some (lit ''ab''), None]) =
     Inr (lit ''--- PAGE 1 ---\<newline>ab\<newline>\<newline>--- PAGE 2 ---\<newline>'')
   \<and> length (spec_sections [Some (lit ''ab''), None]) = 2
   \<and> spec_sections [Some (lit ''ab''), None] ! 0 = lit ''--- PAGE 1 ---\<newline>ab''
   \<and> spec_sections [Some (lit ''ab''), None] ! 1 = lit ''--- PAGE 2 ---\<newline>''"
proof -
  let ?rs = "[Some (lit ''ab''), None]"
  note inst = output_text_join_sections [of ?rs]
  from inst have nth: "\<forall>k<length ?rs. spec_sections ?rs ! k =
         lit ''--- PAGE '' @ str_int (int k + 1) @ lit '' ---\<newline>'' @
         (case ?rs ! k of None \<Rightarrow> [] | Some t \<Rightarrow> t)"
    by blast
  have s0: "spec_sections ?rs ! 0 = lit ''--- PAGE 1 ---\<newline>ab''"
    using nth [rule_format, of 0] by (simp add: lit_def str_int_def str_nat.simps)
  have s1: "spec_sections ?rs ! 1 = lit ''--- PAGE 2 ---\<newline>''"
    using nth [rule_format, of 1] by (simp add: lit_def str_int_def str_nat.simps)
  have len: "length (spec_sections ?rs) = 2"
    using inst by simp
  have secs: "spec_sections ?rs = [spec_sections ?rs ! 0, spec_sections ?rs ! 1]"
    using len by (auto intro!: nth_equalityI simp: less_Suc_eq numeral_2_eq_2)
  have "output_text (returned ?rs) = Inr (join (lit ''\<newline>\<newline>'') (spec_sections ?rs))"
    using inst by blast
  also have "join (lit ''\<newline>\<newline>'') (spec_sections ?rs) =
      lit ''--- PAGE 1 ---\<newline>ab\<newline>\<newline>--- PAGE 2 ---\<newline>''"
    using s0 s1 by (subst secs) (simp add: lit_def)
  finally have out: "output_text (returned ?rs) =
      Inr (lit ''--- PAGE 1 ---\<newline>ab\<newline>\<newline>--- PAGE 2 ---\<newline>'')" .
  show ?thesis by (intro conjI out len s0 s1)
qed

lemma three_pages_text:
  "output_text [Page (Inr (Some (lit ''Hello''))), Page (Inr (Some [])), Page (Inr (Some (lit ''World'')))]
     = Inr (lit ''--- PAGE 1 ---\<newline>Hello\<newline>\<newline>--- PAGE 2 ---\<newline>\<newline>\<newline>--- PAGE 3 ---\<newline>World'')"
  by (simp add: output_text_def section_str_def str_int_def str_nat.simps lit_def)

text \<open>
  C2. The three-page document whose pages extract to \<open>"Hello"\<close>, \<open>""\<close> and
  \<open>"World"\<close> has the Output text
  \<open>"--- PAGE 1 ---\nHello\n\n--- PAGE 2 ---\n\n\n--- PAGE 3 ---\nWorld"\<close>; the script
  passes exactly this text to its one \<open>write_text\<close> call on the output path, and when
  the run completes it has printed \<open>Wrote <output-path> (3 pages)\<close>.
\<close>

theorem three_page_scenario:
  assumes "3 \<le> length argv"
    and "PdfReader pf w (argv ! 1) =
           Inr [Page (Inr (Some (lit ''Hello''))), Page (Inr (Some [])), Page (Inr (Some (lit ''World'')))]"
  shows "output_text [Page (Inr (Some (lit ''Hello''))), Page (Inr (Some [])), Page (Inr (Some (lit ''World'')))]
           = Inr (lit ''--- PAGE 1 ---\<newline>Hello\<newline>\<newline>--- PAGE 2 ---\<newline>\<newline>\<newline>--- PAGE 3 ---\<newline>World'')
       \<and> fs_log (snd (main pf argv w)) =
           fs_log w @ [PdfReaderCall (argv ! 1),
             WriteTextCall (argv ! 2)
               (lit ''--- PAGE 1 ---\<newline>Hello\<newline>\<newline>--- PAGE 2 ---\<newline>\<newline>\<newline>--- PAGE 3 ---\<newline>World'')]
       \<and> (fst (main pf argv w) = Completed \<longrightarrow>
            stdout (snd (main pf argv w)) =
              stdout w @ lit ''Wrote '' @ path_str pf (argv ! 2) @ lit '' (3 pages)\<newline>'')"
proof -
  let ?out = "lit ''--- PAGE 1 ---\<newline>Hello\<newline>\<newline>--- PAGE 2 ---\<newline>\<newline>\<newline>--- PAGE 3 ---\<newline>World''"
  let ?w1 = "w\<lparr>fs_log := fs_log w @ [PdfReaderCall (argv ! 1)]\<rparr>"
  obtain r w2 where wr: "write_text pf (argv ! 2) ?out ?w1 = (r, w2)"
    by (cases "write_text pf (argv ! 2) ?out ?w1")
  have log: "fs_log w2 = fs_log ?w1 @ [WriteTextCall (argv ! 2) ?out]"
    using write_text_log [of pf "argv ! 2" ?out ?w1] wr by simp
  have out: "stdout w2 = stdout w"
    using write_text_stdout [of pf "argv ! 2" ?out ?w1] wr by simp
  let ?m = "completion_message pf (argv ! 2)
      [Page (Inr (Some (lit ''Hello''))), Page (Inr (Some [])), Page (Inr (Some (lit ''World'')))]"
  have run: "main pf argv w =
      (case r of
         Some e \<Rightarrow> (Raised e, w2)
       | None \<Rightarrow> process_end (print pf ?m w2))"
    using assms wr by (cases r) (simp_all add: main_def Let_def three_pages_text)
  have c2: "fs_log (snd (main pf argv w)) =
      fs_log w @ [PdfReaderCall (argv ! 1), WriteTextCall (argv ! 2) ?out]"
    using log by (cases r) (simp_all add: run report_log)
  have c3: "stdout (snd (main pf argv w)) =
      stdout w @ lit ''Wrote '' @ path_str pf (argv ! 2) @ lit '' (3 pages)\<newline>''"
    if "fst (main pf argv w) = Completed"
  proof -
    from that have r: "r = None"
      by (cases r) (simp_all add: run)
    then have "main pf argv w = process_end (print pf ?m w2)"
      by (simp add: run)
    with that have "process_end (print pf ?m w2) = (Completed, snd (main pf argv w))"
      by (metis prod.collapse)
    then have "snd (main pf argv w) = w2\<lparr>stdout := stdout w2 @ ?m @ [10]\<rparr>"
      by (rule report_completed)
    then have "stdout (snd (main pf argv w)) = stdout w @ ?m @ [10]"
      using out by simp
    then show ?thesis by (simp only: three_pages_message)
  qed
  show ?thesis
    using three_pages_text c2 c3 by blast
qed

theorem three_page_scenario_witness:
  "3 \<le> length demo_argv
   \<and> PdfReader (demo_platform [Page (Inr (Some (lit ''Hello''))), Page (Inr (Some [])), Page (Inr (Some (lit ''World'')))])
        demo_world (demo_argv ! 1) =
        Inr [Page (Inr (Some (lit ''Hello''))), Page (Inr (Some [])), Page (Inr (Some (lit ''World'')))]
   \<and> fst (main (demo_platform [Page (Inr (Some (lit ''Hello''))), Page (Inr (Some [])), Page (Inr (Some (lit ''World'')))])
        demo_argv demo_world) = Completed
   \<and> stdout (snd (main (demo_platform [Page (Inr (Some (lit ''Hello''))), Page (Inr (Some [])), Page (Inr (Some (lit ''World'')))])
        demo_argv demo_world)) = lit ''Wrote out.txt (3 pages)\<newline>''"
proof -
  let ?pf = "demo_platform [Page (Inr (Some (lit ''Hello''))), Page (Inr (Some [])), Page (Inr (Some (lit ''World'')))]"
  have len: "3 \<le> length demo_argv"
    by (simp add: demo_argv_def)
  have rd: "PdfReader ?pf demo_world (demo_argv ! 1) =
        Inr [Page (Inr (Some (lit ''Hello''))), Page (Inr (Some [])), Page (Inr (Some (lit ''World'')))]"
    by (simp add: PdfReader_def demo_platform_def demo_world_def demo_argv_def)
  have ok: "fst (main ?pf demo_argv demo_world) = Completed"
    using len rd
    by (simp add: main_def Let_def three_pages_text write_text_def demo_platform_def
          translate_newlines_lf report_completed_iff)
       (simp add: lit_def utf8_char_def report_completed_iff)
  have "stdout (snd (main ?pf demo_argv demo_world)) =
      stdout demo_world @ lit ''Wrote '' @ path_str ?pf (demo_argv ! 2) @ lit '' (3 pages)\<newline>''"
    using three_page_scenario [OF len rd] ok by blast
  then have "stdout (snd (main ?pf demo_argv demo_world)) = lit ''Wrote out.txt (3 pages)\<newline>''"
    by (simp add: demo_world_def demo_platform_def demo_argv_def lit_def)
  with len rd ok show ?thesis by blast
qed

subsection \<open>The script, stage by stage\<close>

lemma extract_loop_first_raise:
  assumes "j < length pages" and "extract_text (pages ! j) = Inl e"
    and "\<forall>i<j. \<exists>r. extract_text (pages ! i) = Inr r"
  shows "extract_loop idx pages acc = Inl e"
  using assms
proof (induction pages arbitrary: j idx acc)
  case Nil
  then show ?case by simp
next
  case (Cons p rest)
  show ?case
  proof (cases j)
    case 0
    with Cons.prems show ?thesis by simp
  next
    case (Suc j')
    from Cons.prems(3) Suc obtain r where r: "extract_text p = Inr r"
      by fastforce
    have "\<forall>i<j'. \<exists>r. extract_text (rest ! i) = Inr r"
      using Cons.prems(3) Suc by fastforce
    with Cons.prems Suc have "extract_loop (idx + 1) rest (acc @ [section_str idx (or_empty r)]) = Inl e"
      by (intro Cons.IH [of j']) simp_all
    with r show ?thesis by simp
  qed
qed

lemma main_short: "length argv < 3 \<Longrightarrow> main pf argv w = (Raised (SystemExit usage), w)"
  by (simp add: main_def)

lemma main_open_fails:
  assumes "3 \<le> length argv" and "PdfReader pf w (argv ! 1) = Inl e"
  shows "main pf argv w = (Raised e, w\<lparr>fs_log := fs_log w @ [PdfReaderCall (argv ! 1)]\<rparr>)"
  using assms by (simp add: main_def Let_def)

lemma main_extract_fails:
  assumes "3 \<le> length argv" and "PdfReader pf w (argv ! 1) = Inr pages"
    and "output_text pages = Inl e"
  shows "main pf argv w = (Raised e, w\<lparr>fs_log := fs_log w @ [PdfReaderCall (argv ! 1)]\<rparr>)"
  using assms by (simp add: main_def Let_def)

lemma main_write:
  assumes "3 \<le> length argv" and "PdfReader pf w (argv ! 1) = Inr pages"
    and "output_text pages = Inr out"
    and "write_text pf (argv ! 2) out (w\<lparr>fs_log := fs_log w @ [PdfReaderCall (argv ! 1)]\<rparr>) = (r, w2)"
  shows "main pf argv w =
    (case r of
       Some e \<Rightarrow> (Raised e, w2)
     | None \<Rightarrow> process_end (print pf (completion_message pf (argv ! 2) pages) w2))"
  using assms by (cases r) (simp_all add: main_def Let_def)

lemma main_completed:
  assumes "main pf argv w = (Completed, w')"
  obtains pages out w2 where "3 \<le> length argv"
    and "PdfReader pf w (argv ! 1) = Inr pages"
    and "output_text pages = Inr out"
    and "write_text pf (argv ! 2) out (w\<lparr>fs_log := fs_log w @ [PdfReaderCall (argv ! 1)]\<rparr>) = (None, w2)"
    and "w' = w2\<lparr>stdout := stdout w2 @ completion_message pf (argv ! 2) pages @ [10]\<rparr>"
proof -
  let ?w1 = "w\<lparr>fs_log := fs_log w @ [PdfReaderCall (argv ! 1)]\<rparr>"
  from assms have len: "3 \<le> length argv"
    by (auto simp: main_def split: if_splits)
  from assms len obtain pages where rd: "PdfReader pf w (argv ! 1) = Inr pages"
    by (cases "PdfReader pf w (argv ! 1)") (auto simp: main_open_fails)
  from assms len rd obtain out where out: "output_text pages = Inr out"
    by (cases "output_text pages") (auto simp: main_extract_fails)
  obtain r w2 where wr: "write_text pf (argv ! 2) out ?w1 = (r, w2)"
    by (cases "write_text pf (argv ! 2) out ?w1")
  note run = main_write [OF len rd out wr]
  from assms run have r: "r = None"
    by (cases r) simp_all
  with assms run have "process_end (print pf (completion_message pf (argv ! 2) pages) w2) = (Completed, w')"
    by simp
  then have "w' = w2\<lparr>stdout := stdout w2 @ completion_message pf (argv ! 2) pages @ [10]\<rparr>"
    by (rule report_completed)
  with len rd out wr r show ?thesis
    by (intro that [of pages out w2]) simp_all
qed

lemma main_completed_effects:
  assumes "main pf argv w = (Completed, w')"
  shows "\<exists>pages out bytes.
      3 \<le> length argv
    \<and> PdfReader pf w (argv ! 1) = Inr pages
    \<and> output_text pages = Inr out
    \<and> fs_log w' = fs_log w @ [PdfReaderCall (argv ! 1), WriteTextCall (argv ! 2) out]
    \<and> utf8_encode (translate_newlines (linesep pf) out) = Inr bytes
    \<and> files w' = (files w)(argv ! 2 \<mapsto> bytes)
    \<and> stdout w' = stdout w @ lit ''Wrote '' @ path_str pf (argv ! 2) @ lit '' ('' @
          str_int (int (length pages)) @ lit '' pages)\<newline>''"
proof -
  let ?w1 = "w\<lparr>fs_log := fs_log w @ [PdfReaderCall (argv ! 1)]\<rparr>"
  from assms obtain pages out w2 where len: "3 \<le> length argv"
    and rd: "PdfReader pf w (argv ! 1) = Inr pages"
    and out: "output_text pages = Inr out"
    and wr: "write_text pf (argv ! 2) out ?w1 = (None, w2)"
    and w': "w' = w2\<lparr>stdout := stdout w2 @ completion_message pf (argv ! 2) pages @ [10]\<rparr>"
    by (rule main_completed)
  from write_text_success [OF wr] obtain bytes
    where enc: "utf8_encode (translate_newlines (linesep pf) out) = Inr bytes"
      and fl: "files w2 = (files ?w1)(argv ! 2 \<mapsto> bytes)"
    by blast
  have log: "fs_log w2 = fs_log ?w1 @ [WriteTextCall (argv ! 2) out]"
    using write_text_log [of pf "argv ! 2" out ?w1] wr by simp
  have so: "stdout w2 = stdout w"
    using write_text_stdout [of pf "argv ! 2" out ?w1] wr by simp
  have nl: "lit '' pages)\<newline>'' = lit '' pages)'' @ [10]"
    by (simp add: lit_def)
  have "fs_log w' = fs_log w @ [PdfReaderCall (argv ! 1), WriteTextCall (argv ! 2) out]"
    using log by (simp add: w')
  moreover have "files w' = (files w)(argv ! 2 \<mapsto> bytes)"
    using fl by (simp add: w')
  moreover have "stdout w' = stdout w @ lit ''Wrote '' @ path_str pf (argv ! 2) @ lit '' ('' @
          str_int (int (length pages)) @ lit '' pages)\<newline>''"
    using so by (simp add: w' completion_message_def nl)
  ultimately show ?thesis using len rd out enc by blast
qed

subsection \<open>Runs on the concrete platform\<close>

lemma one_absent_page_text: "output_text [Page (Inr None)] = Inr (lit ''--- PAGE 1 ---\<newline>'')"
  by (simp add: output_text_def section_str_def str_int_def str_nat.simps lit_def)

lemma one_absent_page_utf8:
  "utf8_encode (lit ''--- PAGE 1 ---\<newline>'') =
     Inr [45, 45, 45, 32, 80, 65, 71, 69, 32, 49, 32, 45, 45, 45, 10]"
  by (simp add: lit_def utf8_char_def)

lemma demo_run_one_page:
  "main (demo_platform [Page (Inr None)]) demo_argv demo_world =
     (Completed,
      \<lparr>files = [lit ''in.pdf'' \<mapsto> [0x25, 0x50, 0x44, 0x46],
                lit ''out.txt'' \<mapsto> [45, 45, 45, 32, 80, 65, 71, 69, 32, 49, 32, 45, 45, 45, 10]],
       stdout = lit ''Wrote out.txt (1 pages)\<newline>'',
       fs_log = [PdfReaderCall (lit ''in.pdf''),
                 WriteTextCall (lit ''out.txt'') (lit ''--- PAGE 1 ---\<newline>'')]\<rparr>)"
proof -
  have msg: "lit ''Wrote '' @ lit ''out.txt'' @ lit '' ('' @ str_int 1 @ lit '' pages)'' @ [10]
      = lit ''Wrote out.txt (1 pages)\<newline>''"
    by (simp add: str_int_def str_nat.simps lit_def)
  show ?thesis
    by (simp add: main_def Let_def demo_argv_def PdfReader_def demo_world_def demo_platform_def
        one_absent_page_text write_text_def translate_newlines_lf one_absent_page_utf8 print_def
        completion_message_def msg)
qed

lemma demo_argv_len: "3 \<le> length demo_argv"
  by (simp add: demo_argv_def)

lemma demo_argv_nth: "demo_argv ! 1 = lit ''in.pdf''" "demo_argv ! 2 = lit ''out.txt''"
  by (simp_all add: demo_argv_def)

lemma demo_reader: "PdfReader (demo_platform pages) demo_world (lit ''in.pdf'') = Inr pages"
  by (simp add: PdfReader_def demo_platform_def demo_world_def)

subsection \<open>Pages without text\<close>

text \<open>
  C3. A page whose \<open>extract_text()\<close> returns \<open>None\<close> raises nothing: the empty
  string stands for its text, its Section is exactly \<open>"--- PAGE k ---\n"\<close>, and the loop
  goes on with the remaining pages and the next index. In a document whose pages all
  return, the Section at the position of such a page is the bare marker with that page's
  number.
\<close>

theorem absent_text_section:
  "(extract_text p = Inr None \<longrightarrow>
      or_empty None = [] \<and>
      extract_loop k (p # rest) sections =
        extract_loop (k + 1) rest (sections @ [lit ''--- PAGE '' @ str_int k @ lit '' ---\<newline>'']))
   \<and> (j < length rs \<and> rs ! j = None \<longrightarrow>
        (\<exists>secs. extract_loop 1 (returned rs) [] = Inr secs \<and> length secs = length rs
           \<and> secs ! j = lit ''--- PAGE '' @ str_int (int j + 1) @ lit '' ---\<newline>''))"
proof (intro conjI impI)
  assume "extract_text p = Inr None"
  then show "extract_loop k (p # rest) sections =
        extract_loop (k + 1) rest (sections @ [lit ''--- PAGE '' @ str_int k @ lit '' ---\<newline>''])"
    by (simp add: section_str_def)
next
  show "or_empty None = []" by simp
next
  assume "j < length rs \<and> rs ! j = None"
  then have "spec_sections rs ! j = lit ''--- PAGE '' @ str_int (int j + 1) @ lit '' ---\<newline>''"
    by (simp add: nth_spec_sections spec_section_def)
  then show "\<exists>secs. extract_loop 1 (returned rs) [] = Inr secs \<and> length secs = length rs
           \<and> secs ! j = lit ''--- PAGE '' @ str_int (int j + 1) @ lit '' ---\<newline>''"
    using extract_loop_spec_sections [of rs] length_spec_sections [of rs] by blast
qed

theorem absent_text_section_witness:
  "extract_text (Page (Inr None)) = Inr None
   \<and> extract_loop 2 [Page (Inr None), Page (Inr (Some (lit ''x'')))] [lit ''--- PAGE 1 ---\<newline>a'']
       = Inr [lit ''--- PAGE 1 ---\<newline>a'', lit ''--- PAGE 2 ---\<newline>'', lit ''--- PAGE 3 ---\<newline>x'']
   \<and> (1::nat) < length [Some (lit ''a''), None, Some (lit ''x'')]
   \<and> [Some (lit ''a''), None, Some (lit ''x'')] ! 1 = None
   \<and> (\<exists>secs. extract_loop 1 (returned [Some (lit ''a''), None, Some (lit ''x'')]) [] = Inr secs
         \<and> length secs = 3 \<and> secs ! 1 = lit ''--- PAGE 2 ---\<newline>'')"
proof -
  have two: "lit ''--- PAGE '' @ str_int 2 @ lit '' ---\<newline>'' = lit ''--- PAGE 2 ---\<newline>''"
    by (simp add: str_int_def str_nat.simps lit_def)
  have idx: "(2::int) + 1 = 3" by simp
  have rest: "extract_loop 3 [Page (Inr (Some (lit ''x'')))] [lit ''--- PAGE 1 ---\<newline>a'', lit ''--- PAGE 2 ---\<newline>'']
      = Inr [lit ''--- PAGE 1 ---\<newline>a'', lit ''--- PAGE 2 ---\<newline>'', lit ''--- PAGE 3 ---\<newline>x'']"
    by (simp add: section_str_def str_int_def str_nat.simps lit_def)
  have "extract_loop 2 [Page (Inr None), Page (Inr (Some (lit ''x'')))] [lit ''--- PAGE 1 ---\<newline>a'']
      = extract_loop (2 + 1) [Page (Inr (Some (lit ''x'')))]
          ([lit ''--- PAGE 1 ---\<newline>a''] @ [lit ''--- PAGE '' @ str_int 2 @ lit '' ---\<newline>''])"
    using absent_text_section [of "Page (Inr None)" 2 "[Page (Inr (Some (lit ''x'')))]"
        "[lit ''--- PAGE 1 ---\<newline>a'']"]
    by simp
  then have a: "extract_loop 2 [Page (Inr None), Page (Inr (Some (lit ''x'')))] [lit ''--- PAGE 1 ---\<newline>a'']
      = Inr [lit ''--- PAGE 1 ---\<newline>a'', lit ''--- PAGE 2 ---\<newline>'', lit ''--- PAGE 3 ---\<newline>x'']"
    using rest by (simp only: idx two append.simps)
  have hyp: "(1::nat) < length [Some (lit ''a''), None, Some (lit ''x'')]
      \<and> [Some (lit ''a''), None, Some (lit ''x'')] ! 1 = None"
    by simp
  have "\<exists>secs. extract_loop 1 (returned [Some (lit ''a''), None, Some (lit ''x'')]) [] = Inr secs
      \<and> length secs = length [Some (lit ''a''), None, Some (lit ''x'')]
      \<and> secs ! 1 = lit ''--- PAGE '' @ str_int (int 1 + 1) @ lit '' ---\<newline>''"
    using absent_text_section [of "Page (Inr None)" 2 "[]" "[]" 1 "[Some (lit ''a''), None, Some (lit ''x'')]"]
      hyp by blast
  then have b: "\<exists>secs. extract_loop 1 (returned [Some (lit ''a''), None, Some (lit ''x'')]) [] = Inr secs
         \<and> length secs = 3 \<and> secs ! 1 = lit ''--- PAGE 2 ---\<newline>''"
    using two by (auto simp: numeral_3_eq_3)
  have c: "extract_text (Page (Inr None)) = Inr None" by simp
  show ?thesis using a b hyp c by blast
qed

subsection \<open>The command line\<close>

text \<open>
  C4. With fewer than two arguments after the script name (\<open>len(sys.argv) < 3\<close>) the
  script raises \<open>SystemExit\<close> with the usage message, where the program is written
  \<open>python pdf_to_text_temp.py\<close>; the interpreter prints the message and exits with a
  non-zero status. No call on the input or the output path has been made: the log of
  calls and the file system are as before.
\<close>

theorem usage_error_before_io:
  assumes "length argv < 3"
  shows "main pf argv w =
           (Raised (SystemExit (lit ''Usage: python pdf_to_text_temp.py <input.pdf> <output.txt>'')), w)
       \<and> exit_status (fst (main pf argv w)) \<noteq> 0
       \<and> stderr_text (fst (main pf argv w)) =
           Some (lit ''Usage: python pdf_to_text_temp.py <input.pdf> <output.txt>\<newline>'')
       \<and> fs_log (snd (main pf argv w)) = fs_log w
       \<and> files (snd (main pf argv w)) = files w"
  using assms by (simp add: main_def usage_def lit_def)

theorem usage_error_before_io_witness:
  "length [lit ''pdf_to_text_temp.py'', lit ''in.pdf''] < 3
   \<and> main (demo_platform []) [lit ''pdf_to_text_temp.py'', lit ''in.pdf''] demo_world =
       (Raised (SystemExit (lit ''Usage: python pdf_to_text_temp.py <input.pdf> <output.txt>'')), demo_world)
   \<and> exit_status (fst (main (demo_platform []) [lit ''pdf_to_text_temp.py'', lit ''in.pdf''] demo_world)) = 1
   \<and> fs_log (snd (main (demo_platform []) [lit ''pdf_to_text_temp.py'', lit ''in.pdf''] demo_world)) = []"
proof -
  have len: "length [lit ''pdf_to_text_temp.py'', lit ''in.pdf''] < 3" by simp
  note inst = usage_error_before_io [OF len, of "demo_platform []" demo_world]
  from inst have run: "main (demo_platform []) [lit ''pdf_to_text_temp.py'', lit ''in.pdf''] demo_world =
       (Raised (SystemExit (lit ''Usage: python pdf_to_text_temp.py <input.pdf> <output.txt>'')), demo_world)"
    by blast
  from inst have "fs_log (snd (main (demo_platform []) [lit ''pdf_to_text_temp.py'', lit ''in.pdf''] demo_world))
      = fs_log demo_world" by blast
  then have log: "fs_log (snd (main (demo_platform []) [lit ''pdf_to_text_temp.py'', lit ''in.pdf''] demo_world)) = []"
    by (simp add: demo_world_def)
  have st: "exit_status (fst (main (demo_platform []) [lit ''pdf_to_text_temp.py'', lit ''in.pdf''] demo_world)) = 1"
    by (simp add: run)
  show ?thesis by (intro conjI len run st log)
qed

text \<open>
  C10. With more than two arguments the run is the run on the first two: only
  \<open>argv[1]\<close> and \<open>argv[2]\<close> are read, so two command lines that agree there
  (whatever the script name and the further arguments are) behave alike.
\<close>

theorem extra_arguments_ignored:
  "(3 \<le> length argv \<longrightarrow> main pf argv w = main pf (take 3 argv) w)
   \<and> (3 \<le> length argv \<and> 3 \<le> length argv' \<and> argv' ! 1 = argv ! 1 \<and> argv' ! 2 = argv ! 2 \<longrightarrow>
        main pf argv' w = main pf argv w)"
  by (simp add: main_def Let_def)

theorem extra_arguments_ignored_witness:
  "3 \<le> length (demo_argv @ [lit ''--verbose'', lit ''more''])
   \<and> take 3 (demo_argv @ [lit ''--verbose'', lit ''more'']) = demo_argv
   \<and> main (demo_platform [Page (Inr None)]) (demo_argv @ [lit ''--verbose'', lit ''more'']) demo_world
       = main (demo_platform [Page (Inr None)]) demo_argv demo_world
   \<and> fst (main (demo_platform [Page (Inr None)]) (demo_argv @ [lit ''--verbose'', lit ''more'']) demo_world)
       = Completed"
proof -
  let ?pf = "demo_platform [Page (Inr None)]"
  let ?argv = "demo_argv @ [lit ''--verbose'', lit ''more'']"
  have len: "3 \<le> length ?argv" by (simp add: demo_argv_def)
  have tk: "take 3 ?argv = demo_argv" by (simp add: demo_argv_def)
  have eq: "main ?pf ?argv demo_world = main ?pf demo_argv demo_world"
    using extra_arguments_ignored [of ?argv ?pf demo_world] len tk by simp
  have out: "output_text [Page (Inr None)] = Inr (lit ''--- PAGE 1 ---\<newline>'')"
    by (simp add: output_text_def section_str_def str_int_def str_nat.simps lit_def)
  have enc: "utf8_encode (lit ''--- PAGE 1 ---\<newline>'') =
      Inr [45, 45, 45, 32, 80, 65, 71, 69, 32, 49, 32, 45, 45, 45, 10]"
    by (simp add: lit_def utf8_char_def)
  have "fst (main ?pf demo_argv demo_world) = Completed"
    by (simp add: main_def Let_def demo_argv_def PdfReader_def demo_world_def demo_platform_def
          out write_text_def translate_newlines_lf enc report_completed_iff)
  with eq have ok: "fst (main ?pf ?argv demo_world) = Completed" by simp
  show ?thesis by (intro conjI len tk eq ok)
qed

subsection \<open>A successful run\<close>

text \<open>
  C6. When the run completes, the document was opened, the Output text of its pages was
  passed to one \<open>write_text\<close> call on the output path, the file at the output path now
  holds the written bytes whether or not a file was there before, and standard output
  gained exactly the line \<open>Wrote {output-path} ({page-count} pages)\<close>, the path as pathlib
  renders it and the count being the number of pages of the document.
\<close>

theorem success_writes_and_reports:
  assumes "main pf argv w = (Completed, w')"
  shows "\<exists>pages out bytes.
      PdfReader pf w (argv ! 1) = Inr pages
    \<and> output_text pages = Inr out
    \<and> fs_log w' = fs_log w @ [PdfReaderCall (argv ! 1), WriteTextCall (argv ! 2) out]
    \<and> utf8_encode (translate_newlines (linesep pf) out) = Inr bytes
    \<and> files w' = (files w)(argv ! 2 \<mapsto> bytes)
    \<and> stdout w' = stdout w @ lit ''Wrote '' @ path_str pf (argv ! 2) @ lit '' ('' @
          str_int (int (length pages)) @ lit '' pages)\<newline>''"
  using main_completed_effects [OF assms] by blast

theorem success_writes_and_reports_witness:
  "main (demo_platform [Page (Inr None)]) demo_argv demo_world =
     (Completed, snd (main (demo_platform [Page (Inr None)]) demo_argv demo_world))
   \<and> files (snd (main (demo_platform [Page (Inr None)]) demo_argv demo_world)) (lit ''out.txt'') =
       Some [45, 45, 45, 32, 80, 65, 71, 69, 32, 49, 32, 45, 45, 45, 10]
   \<and> stdout (snd (main (demo_platform [Page (Inr None)]) demo_argv demo_world)) =
       lit ''Wrote out.txt (1 pages)\<newline>''"
proof -
  let ?pf = "demo_platform [Page (Inr None)]"
  let ?w' = "snd (main ?pf demo_argv demo_world)"
  have run: "main ?pf demo_argv demo_world = (Completed, ?w')"
    by (simp add: demo_run_one_page)
  have rd: "PdfReader ?pf demo_world (demo_argv ! 1) = Inr [Page (Inr None)]"
    by (simp add: PdfReader_def demo_platform_def demo_world_def demo_argv_def)
  from success_writes_and_reports [OF run] rd obtain out bytes
    where out: "output_text [Page (Inr None)] = Inr out"
      and enc: "utf8_encode (translate_newlines (linesep ?pf) out) = Inr bytes"
      and fl: "files ?w' = (files demo_world)(demo_argv ! 2 \<mapsto> bytes)"
      and so: "stdout ?w' = stdout demo_world @ lit ''Wrote '' @ path_str ?pf (demo_argv ! 2) @
          lit '' ('' @ str_int (int (length [Page (Inr None)])) @ lit '' pages)\<newline>''"
    by auto
  from out have out': "out = lit ''--- PAGE 1 ---\<newline>''"
    by (simp add: one_absent_page_text)
  from enc have bytes: "bytes = [45, 45, 45, 32, 80, 65, 71, 69, 32, 49, 32, 45, 45, 45, 10]"
    by (simp add: out' demo_platform_def translate_newlines_lf one_absent_page_utf8)
  have f: "files ?w' (lit ''out.txt'') = Some [45, 45, 45, 32, 80, 65, 71, 69, 32, 49, 32, 45, 45, 45, 10]"
    using fl bytes by (simp add: demo_argv_def)
  have s: "stdout ?w' = lit ''Wrote out.txt (1 pages)\<newline>''"
    using so by (simp add: demo_world_def demo_platform_def demo_argv_def str_int_def str_nat.simps lit_def)
  show ?thesis by (intro conjI run f s)
qed

text \<open>
  C9, as amended. When the run completes, the bytes at the output path are the UTF-8
  encoding of the Output text after text mode has replaced every \<open>"\n"\<close> in it by the
  platform's line separator; where that separator is \<open>"\n"\<close> they are exactly the
  UTF-8 encoding of the Output text.
\<close>

theorem written_bytes_text_mode_utf8:
  assumes "main pf argv w = (Completed, w')"
  shows "\<exists>pages out bytes.
      PdfReader pf w (argv ! 1) = Inr pages
    \<and> output_text pages = Inr out
    \<and> files w' (argv ! 2) = Some bytes
    \<and> utf8_encode (translate_newlines (linesep pf) out) = Inr bytes
    \<and> (linesep pf = [10] \<longrightarrow> utf8_encode out = Inr bytes)"
proof -
  from main_completed_effects [OF assms] obtain pages out bytes
    where "PdfReader pf w (argv ! 1) = Inr pages" and "output_text pages = Inr out"
      and enc: "utf8_encode (translate_newlines (linesep pf) out) = Inr bytes"
      and "files w' = (files w)(argv ! 2 \<mapsto> bytes)"
    by blast
  moreover from this have "files w' (argv ! 2) = Some bytes" by simp
  moreover have "linesep pf = [10] \<longrightarrow> utf8_encode out = Inr bytes"
    using enc by (auto simp: translate_newlines_lf)
  ultimately show ?thesis by blast
qed

theorem written_bytes_text_mode_utf8_witness:
  "main (demo_platform [Page (Inr None)]) demo_argv demo_world =
     (Completed, snd (main (demo_platform [Page (Inr None)]) demo_argv demo_world))
   \<and> linesep (demo_platform [Page (Inr None)]) = [10]
   \<and> utf8_encode (lit ''--- PAGE 1 ---\<newline>'') =
       Inr [45, 45, 45, 32, 80, 65, 71, 69, 32, 49, 32, 45, 45, 45, 10]
   \<and> files (snd (main (demo_platform [Page (Inr None)]) demo_argv demo_world)) (lit ''out.txt'') =
       Some [45, 45, 45, 32, 80, 65, 71, 69, 32, 49, 32, 45, 45, 45, 10]"
proof -
  let ?pf = "demo_platform [Page (Inr None)]"
  let ?w' = "snd (main ?pf demo_argv demo_world)"
  have run: "main ?pf demo_argv demo_world = (Completed, ?w')"
    by (simp add: demo_run_one_page)
  have nl: "linesep ?pf = [10]"
    by (simp add: demo_platform_def)
  have rd: "PdfReader ?pf demo_world (demo_argv ! 1) = Inr [Page (Inr None)]"
    by (simp add: PdfReader_def demo_platform_def demo_world_def demo_argv_def)
  from written_bytes_text_mode_utf8 [OF run] rd nl obtain out bytes
    where out: "output_text [Page (Inr None)] = Inr out"
      and fl: "files ?w' (demo_argv ! 2) = Some bytes"
      and enc: "utf8_encode out = Inr bytes"
    by auto
  from out have "out = lit ''--- PAGE 1 ---\<newline>''"
    by (simp add: one_absent_page_text)
  with enc have "bytes = [45, 45, 45, 32, 80, 65, 71, 69, 32, 49, 32, 45, 45, 45, 10]"
    by (simp add: one_absent_page_utf8)
  with fl have f: "files ?w' (lit ''out.txt'') =
      Some [45, 45, 45, 32, 80, 65, 71, 69, 32, 49, 32, 45, 45, 45, 10]"
    by (simp add: demo_argv_def)
  show ?thesis by (intro conjI run nl one_absent_page_utf8 f)
qed

text \<open>
  C9 as stated fails where the line separator is \<open>"\r\n"\<close>: for a document of one page
  without text the Output text is \<open>"--- PAGE 1 ---\n"\<close>, fifteen bytes in UTF-8, and
  the file holds sixteen bytes, ending in 13, 10.
\<close>

theorem crlf_platform_counterexample:
  "fst (main ((demo_platform [Page (Inr None)])\<lparr>linesep := [13, 10]\<rparr>) demo_argv demo_world) = Completed
   \<and> output_text [Page (Inr None)] = Inr (lit ''--- PAGE 1 ---\<newline>'')
   \<and> utf8_encode (lit ''--- PAGE 1 ---\<newline>'') =
       Inr [45, 45, 45, 32, 80, 65, 71, 69, 32, 49, 32, 45, 45, 45, 10]
   \<and> files (snd (main ((demo_platform [Page (Inr None)])\<lparr>linesep := [13, 10]\<rparr>) demo_argv demo_world))
        (lit ''out.txt'') =
       Some [45, 45, 45, 32, 80, 65, 71, 69, 32, 49, 32, 45, 45, 45, 13, 10]
   \<and> files (snd (main ((demo_platform [Page (Inr None)])\<lparr>linesep := [13, 10]\<rparr>) demo_argv demo_world))
        (lit ''out.txt'') \<noteq>
       Some [45, 45, 45, 32, 80, 65, 71, 69, 32, 49, 32, 45, 45, 45, 10]"
proof -
  let ?pf = "(demo_platform [Page (Inr None)])\<lparr>linesep := [13, 10]\<rparr>"
  have enc: "utf8_encode (translate_newlines [13, 10] (lit ''--- PAGE 1 ---\<newline>'')) =
      Inr [45, 45, 45, 32, 80, 65, 71, 69, 32, 49, 32, 45, 45, 45, 13, 10]"
    by (simp add: lit_def utf8_char_def)
  have run: "main ?pf demo_argv demo_world =
     (Completed,
      \<lparr>files = [lit ''in.pdf'' \<mapsto> [0x25, 0x50, 0x44, 0x46],
                lit ''out.txt'' \<mapsto> [45, 45, 45, 32, 80, 65, 71, 69, 32, 49, 32, 45, 45, 45, 13, 10]],
       stdout = lit ''Wrote '' @ lit ''out.txt'' @ lit '' ('' @ str_int 1 @ lit '' pages)'' @ [10],
       fs_log = [PdfReaderCall (lit ''in.pdf''),
                 WriteTextCall (lit ''out.txt'') (lit ''--- PAGE 1 ---\<newline>'')]\<rparr>)"
    by (simp add: main_def Let_def demo_argv_def PdfReader_def demo_world_def demo_platform_def
        one_absent_page_text write_text_def enc print_def completion_message_def)
  show ?thesis
    by (simp add: run one_absent_page_text one_absent_page_utf8)
qed

subsection \<open>Running twice\<close>

lemma rerun_source_untouched:
  assumes "main pf argv w = (Completed, w1)" and "argv ! 1 \<noteq> argv ! 2"
  shows "files w1 (argv ! 1) = files w (argv ! 1)"
  using main_completed_effects [OF assms(1)] assms(2) by auto

text \<open>
  C7. Two completed runs on the same platform with the same command line, the second
  starting where the first ended and finding the source document as the first found it
  (as it does when the output path is not the input path), leave the same bytes at the
  output path. Extraction is deterministic: a page is modelled by its extraction result.
\<close>

theorem rerun_same_bytes:
  assumes "main pf argv w = (Completed, w1)"
    and "main pf argv w1 = (Completed, w2)"
    and "files w1 (argv ! 1) = files w (argv ! 1)"
  shows "files w2 (argv ! 2) = files w1 (argv ! 2) \<and> files w2 = files w1"
proof -
  from main_completed_effects [OF assms(1)] obtain pages out bytes
    where rd: "PdfReader pf w (argv ! 1) = Inr pages" and out: "output_text pages = Inr out"
      and enc: "utf8_encode (translate_newlines (linesep pf) out) = Inr bytes"
      and f1: "files w1 = (files w)(argv ! 2 \<mapsto> bytes)"
    by blast
  from main_completed_effects [OF assms(2)] obtain pages' out' bytes'
    where rd': "PdfReader pf w1 (argv ! 1) = Inr pages'" and out': "output_text pages' = Inr out'"
      and enc': "utf8_encode (translate_newlines (linesep pf) out') = Inr bytes'"
      and f2: "files w2 = (files w1)(argv ! 2 \<mapsto> bytes')"
    by blast
  have "PdfReader pf w1 (argv ! 1) = PdfReader pf w (argv ! 1)"
    using assms(3) by (simp add: PdfReader_def)
  with rd rd' have "pages' = pages" by simp
  with out out' have "out' = out" by simp
  with enc enc' have "bytes' = bytes" by simp
  with f1 f2 have "files w2 = files w1" by simp
  then show ?thesis by simp
qed

theorem rerun_same_bytes_witness:
  "main (demo_platform [Page (Inr None)]) demo_argv demo_world =
     (Completed, snd (main (demo_platform [Page (Inr None)]) demo_argv demo_world))
   \<and> main (demo_platform [Page (Inr None)]) demo_argv
        (snd (main (demo_platform [Page (Inr None)]) demo_argv demo_world)) =
     (Completed, snd (main (demo_platform [Page (Inr None)]) demo_argv
        (snd (main (demo_platform [Page (Inr None)]) demo_argv demo_world))))
   \<and> files (snd (main (demo_platform [Page (Inr None)]) demo_argv demo_world)) (demo_argv ! 1) =
       files demo_world (demo_argv ! 1)
   \<and> files (snd (main (demo_platform [Page (Inr None)]) demo_argv
        (snd (main (demo_platform [Page (Inr None)]) demo_argv demo_world)))) (lit ''out.txt'') =
       Some [45, 45, 45, 32, 80, 65, 71, 69, 32, 49, 32, 45, 45, 45, 10]"
proof -
  let ?pf = "demo_platform [Page (Inr None)]"
  let ?w1 = "snd (main ?pf demo_argv demo_world)"
  let ?w2 = "snd (main ?pf demo_argv ?w1)"
  have run1: "main ?pf demo_argv demo_world = (Completed, ?w1)"
    by (simp add: demo_run_one_page)
  have "fst (main ?pf demo_argv ?w1) = Completed"
    by (simp add: demo_run_one_page)
       (simp add: main_def Let_def demo_argv_def PdfReader_def demo_platform_def
          one_absent_page_text write_text_def translate_newlines_lf one_absent_page_utf8
          report_completed_iff)
  then have run2: "main ?pf demo_argv ?w1 = (Completed, ?w2)"
    by (metis prod.collapse)
  have src: "files ?w1 (demo_argv ! 1) = files demo_world (demo_argv ! 1)"
    by (simp add: demo_run_one_page) (simp add: demo_world_def demo_argv_def lit_def)
  have tgt: "demo_argv ! 2 = lit ''out.txt''"
    by (simp add: demo_argv_def)
  have first: "files ?w1 (lit ''out.txt'') =
      Some [45, 45, 45, 32, 80, 65, 71, 69, 32, 49, 32, 45, 45, 45, 10]"
    by (simp add: demo_run_one_page)
  have "files ?w2 (demo_argv ! 2) = files ?w1 (demo_argv ! 2)"
    using rerun_same_bytes [OF run1 run2 src] by blast
  then have same: "files ?w2 (lit ''out.txt'') =
      Some [45, 45, 45, 32, 80, 65, 71, 69, 32, 49, 32, 45, 45, 45, 10]"
    by (simp only: tgt first)
  show ?thesis by (intro conjI run1 run2 src same)
qed

subsection \<open>Failures\<close>

text \<open>
  C8. With both paths given, an exception of the open, of the first page whose extraction
  raises, or of the write is the outcome of the run: nothing catches it. The same holds
  for the last statement: an exception of \<open>print\<close> is the outcome, and a standard output
  that cannot be flushed at shutdown ends the process with status 120. Every outcome
  other than a completed run has a non-zero status; the status is 0 exactly when the run
  completed, and the run completes exactly when the open, every extraction, the write
  and the report on standard output all succeed.
\<close>

theorem failures_reach_process_boundary:
  assumes "3 \<le> length argv"
  shows "(PdfReader pf w (argv ! 1) = Inl e1 \<longrightarrow> fst (main pf argv w) = Raised e1)
   \<and> (PdfReader pf w (argv ! 1) = Inr pages \<and> j < length pages
        \<and> extract_text (pages ! j) = Inl e2
        \<and> (\<forall>i<j. \<exists>r. extract_text (pages ! i) = Inr r) \<longrightarrow>
        fst (main pf argv w) = Raised e2)
   \<and> (PdfReader pf w (argv ! 1) = Inr pages \<and> output_text pages = Inr out
        \<and> fst (write_text pf (argv ! 2) out (w\<lparr>fs_log := fs_log w @ [PdfReaderCall (argv ! 1)]\<rparr>)) = Some e3 \<longrightarrow>
        fst (main pf argv w) = Raised e3)
   \<and> (PdfReader pf w (argv ! 1) = Inr pages \<and> output_text pages = Inr out
        \<and> fst (write_text pf (argv ! 2) out (w\<lparr>fs_log := fs_log w @ [PdfReaderCall (argv ! 1)]\<rparr>)) = None \<longrightarrow>
          (stdout_fault pf (completion_message pf (argv ! 2) pages @ [10]) = Some (PrintRaises e4) \<longrightarrow>
             fst (main pf argv w) = Raised e4)
        \<and> (stdout_fault pf (completion_message pf (argv ! 2) pages @ [10]) = Some FlushFails \<longrightarrow>
             fst (main pf argv w) = FlushFailed)
        \<and> (stdout_fault pf (completion_message pf (argv ! 2) pages @ [10]) = None \<longrightarrow>
             fst (main pf argv w) = Completed))
   \<and> exit_status (Raised e) \<noteq> 0
   \<and> exit_status FlushFailed \<noteq> 0
   \<and> (exit_status (fst (main pf argv w)) = 0 \<longleftrightarrow> fst (main pf argv w) = Completed)
   \<and> (fst (main pf argv w) = Completed \<longleftrightarrow>
        (\<exists>ps otext. PdfReader pf w (argv ! 1) = Inr ps \<and> output_text ps = Inr otext
           \<and> fst (write_text pf (argv ! 2) otext (w\<lparr>fs_log := fs_log w @ [PdfReaderCall (argv ! 1)]\<rparr>)) = None
           \<and> stdout_fault pf (completion_message pf (argv ! 2) ps @ [10]) = None))"
proof -
  let ?w1 = "w\<lparr>fs_log := fs_log w @ [PdfReaderCall (argv ! 1)]\<rparr>"
  have c1: "fst (main pf argv w) = Raised e1" if "PdfReader pf w (argv ! 1) = Inl e1"
    using assms that by (simp add: main_open_fails)
  have c2: "fst (main pf argv w) = Raised e2"
    if a: "PdfReader pf w (argv ! 1) = Inr pages \<and> j < length pages
        \<and> extract_text (pages ! j) = Inl e2
        \<and> (\<forall>i<j. \<exists>r. extract_text (pages ! i) = Inr r)"
  proof -
    from a have "extract_loop 1 pages [] = Inl e2"
      by (intro extract_loop_first_raise [of j]) simp_all
    then have "output_text pages = Inl e2"
      by (simp add: output_text_def)
    with assms a show ?thesis
      by (simp add: main_extract_fails)
  qed
  have c3: "fst (main pf argv w) = Raised e3"
    if a: "PdfReader pf w (argv ! 1) = Inr pages \<and> output_text pages = Inr out
        \<and> fst (write_text pf (argv ! 2) out ?w1) = Some e3"
  proof -
    obtain w2 where "write_text pf (argv ! 2) out ?w1 = (Some e3, w2)"
      using a by (cases "write_text pf (argv ! 2) out ?w1") simp
    with assms a show ?thesis
      by (simp add: main_write)
  qed
  have report: "fst (main pf argv w) =
      fst (process_end (print pf (completion_message pf (argv ! 2) ps) (snd (write_text pf (argv ! 2) otext ?w1))))"
    if a: "PdfReader pf w (argv ! 1) = Inr ps \<and> output_text ps = Inr otext
        \<and> fst (write_text pf (argv ! 2) otext ?w1) = None" for ps otext
  proof -
    obtain w2 where "write_text pf (argv ! 2) otext ?w1 = (None, w2)"
      using a by (cases "write_text pf (argv ! 2) otext ?w1") simp
    with assms a show ?thesis
      by (simp add: main_write)
  qed
  have c4: "(stdout_fault pf (completion_message pf (argv ! 2) pages @ [10]) = Some (PrintRaises e4) \<longrightarrow>
             fst (main pf argv w) = Raised e4)
        \<and> (stdout_fault pf (completion_message pf (argv ! 2) pages @ [10]) = Some FlushFails \<longrightarrow>
             fst (main pf argv w) = FlushFailed)
        \<and> (stdout_fault pf (completion_message pf (argv ! 2) pages @ [10]) = None \<longrightarrow>
             fst (main pf argv w) = Completed)"
    if a: "PdfReader pf w (argv ! 1) = Inr pages \<and> output_text pages = Inr out
        \<and> fst (write_text pf (argv ! 2) out ?w1) = None"
    by (simp add: report [OF a] report_raised_iff report_flush_iff report_completed_iff)
  have c5: "exit_status (fst (main pf argv w)) = 0 \<longleftrightarrow> fst (main pf argv w) = Completed"
    by (cases "fst (main pf argv w)") simp_all
  have c6: "fst (main pf argv w) = Completed \<longleftrightarrow>
        (\<exists>ps otext. PdfReader pf w (argv ! 1) = Inr ps \<and> output_text ps = Inr otext
           \<and> fst (write_text pf (argv ! 2) otext ?w1) = None
           \<and> stdout_fault pf (completion_message pf (argv ! 2) ps @ [10]) = None)"
  proof
    assume "fst (main pf argv w) = Completed"
    then have run: "main pf argv w = (Completed, snd (main pf argv w))"
      by (metis prod.collapse)
    from run obtain ps otext w2 where rd: "PdfReader pf w (argv ! 1) = Inr ps"
      and otext: "output_text ps = Inr otext"
      and wr: "write_text pf (argv ! 2) otext ?w1 = (None, w2)"
      by (rule main_completed)
    from wr have "fst (write_text pf (argv ! 2) otext ?w1) = None" by simp
    with rd otext have a: "PdfReader pf w (argv ! 1) = Inr ps \<and> output_text ps = Inr otext
        \<and> fst (write_text pf (argv ! 2) otext ?w1) = None"
      by simp
    from \<open>fst (main pf argv w) = Completed\<close>
    have "stdout_fault pf (completion_message pf (argv ! 2) ps @ [10]) = None"
      by (simp add: report [OF a] report_completed_iff)
    with a show "\<exists>ps otext. PdfReader pf w (argv ! 1) = Inr ps \<and> output_text ps = Inr otext
           \<and> fst (write_text pf (argv ! 2) otext ?w1) = None
           \<and> stdout_fault pf (completion_message pf (argv ! 2) ps @ [10]) = None"
      by blast
  next
    assume "\<exists>ps otext. PdfReader pf w (argv ! 1) = Inr ps \<and> output_text ps = Inr otext
           \<and> fst (write_text pf (argv ! 2) otext ?w1) = None
           \<and> stdout_fault pf (completion_message pf (argv ! 2) ps @ [10]) = None"
    then obtain ps otext where a: "PdfReader pf w (argv ! 1) = Inr ps \<and> output_text ps = Inr otext
        \<and> fst (write_text pf (argv ! 2) otext ?w1) = None"
      and ok: "stdout_fault pf (completion_message pf (argv ! 2) ps @ [10]) = None"
      by blast
    show "fst (main pf argv w) = Completed"
      by (simp add: report [OF a] report_completed_iff ok)
  qed
  have c7: "exit_status (Raised e) \<noteq> 0" and c8: "exit_status FlushFailed \<noteq> 0"
    by simp_all
  show ?thesis
    using c1 c2 c3 c4 c5 c6 c7 c8 by (intro conjI impI) blast+
qed

theorem failures_reach_process_boundary_witness:
  "3 \<le> length demo_argv
   \<and> PdfReader (demo_platform []) (demo_world\<lparr>files := Map.empty\<rparr>) (demo_argv ! 1) = Inl FileNotFoundError
   \<and> fst (main (demo_platform []) demo_argv (demo_world\<lparr>files := Map.empty\<rparr>)) = Raised FileNotFoundError
   \<and> exit_status (fst (main (demo_platform []) demo_argv (demo_world\<lparr>files := Map.empty\<rparr>))) = 1
   \<and> fst (main (demo_platform [Page (Inr None), Page (Inl (OtherError ''PdfReadError''))]) demo_argv demo_world)
       = Raised (OtherError ''PdfReadError'')
   \<and> fst (main ((demo_platform [Page (Inr None)])\<lparr>open_for_write := \<lambda>fs p. Some (OtherError ''PermissionError'')\<rparr>)
          demo_argv demo_world) = Raised (OtherError ''PermissionError'')
   \<and> fst (main ((demo_platform [Page (Inr None)])\<lparr>stdout_fault := \<lambda>s. Some (PrintRaises UnicodeEncodeError)\<rparr>)
          demo_argv demo_world) = Raised UnicodeEncodeError
   \<and> fst (main ((demo_platform [Page (Inr None)])\<lparr>stdout_fault := \<lambda>s. Some FlushFails\<rparr>)
          demo_argv demo_world) = FlushFailed
   \<and> exit_status (fst (main ((demo_platform [Page (Inr None)])\<lparr>stdout_fault := \<lambda>s. Some FlushFails\<rparr>)
          demo_argv demo_world)) = 120
   \<and> fst (main (demo_platform [Page (Inr None)]) demo_argv demo_world) = Completed
   \<and> exit_status (fst (main (demo_platform [Page (Inr None)]) demo_argv demo_world)) = 0"
proof -
  let ?nofile = "demo_world\<lparr>files := Map.empty\<rparr>"
  let ?bad = "[Page (Inr None), Page (Inl (OtherError ''PdfReadError''))]"
  let ?one = "[Page (Inr None)]"
  let ?sec = "lit ''--- PAGE 1 ---\<newline>''"
  let ?ro = "(demo_platform ?one)\<lparr>open_for_write := \<lambda>fs p. Some (OtherError ''PermissionError'')\<rparr>"
  let ?enc = "(demo_platform ?one)\<lparr>stdout_fault := \<lambda>s. Some (PrintRaises UnicodeEncodeError)\<rparr>"
  let ?fl = "(demo_platform ?one)\<lparr>stdout_fault := \<lambda>s. Some FlushFails\<rparr>"
  let ?w1 = "demo_world\<lparr>fs_log := fs_log demo_world @ [PdfReaderCall (demo_argv ! 1)]\<rparr>"
  have missing: "PdfReader (demo_platform []) ?nofile (demo_argv ! 1) = Inl FileNotFoundError"
    by (simp add: PdfReader_def)
  have a: "fst (main (demo_platform []) demo_argv ?nofile) = Raised FileNotFoundError"
    using failures_reach_process_boundary [OF demo_argv_len, of "demo_platform []" ?nofile FileNotFoundError]
      missing by blast
  have a': "exit_status (fst (main (demo_platform []) demo_argv ?nofile)) = 1"
    by (simp add: a)
  have rdb: "PdfReader (demo_platform ?bad) demo_world (demo_argv ! 1) = Inr ?bad"
    by (simp only: demo_argv_nth demo_reader)
  have "1 < length ?bad \<and> extract_text (?bad ! 1) = Inl (OtherError ''PdfReadError'')
      \<and> (\<forall>i<1. \<exists>r. extract_text (?bad ! i) = Inr r)"
    by simp
  with rdb have b: "fst (main (demo_platform ?bad) demo_argv demo_world) = Raised (OtherError ''PdfReadError'')"
    using failures_reach_process_boundary [OF demo_argv_len, of "demo_platform ?bad" demo_world _ ?bad 1
        "OtherError ''PdfReadError''"]
    by blast
  have rd: "PdfReader ?ro demo_world (demo_argv ! 1) = Inr ?one"
    unfolding demo_argv_nth by (simp add: PdfReader_def demo_platform_def demo_world_def)
  have "fst (write_text ?ro (demo_argv ! 2) ?sec ?w1) = Some (OtherError ''PermissionError'')"
    by (simp add: write_text_def demo_platform_def)
  with rd one_absent_page_text
  have c: "fst (main ?ro demo_argv demo_world) = Raised (OtherError ''PermissionError'')"
    using failures_reach_process_boundary [OF demo_argv_len, of ?ro demo_world _ ?one _ _
        ?sec "OtherError ''PermissionError''"]
    by blast
  have rde: "PdfReader ?enc demo_world (demo_argv ! 1) = Inr ?one"
    unfolding demo_argv_nth by (simp add: PdfReader_def demo_platform_def demo_world_def)
  have wre: "fst (write_text ?enc (demo_argv ! 2) ?sec ?w1) = None"
    by (simp add: write_text_def demo_platform_def translate_newlines_lf one_absent_page_utf8)
  have fe: "stdout_fault ?enc (completion_message ?enc (demo_argv ! 2) ?one @ [10]) = Some (PrintRaises UnicodeEncodeError)"
    by simp
  have p: "fst (main ?enc demo_argv demo_world) = Raised UnicodeEncodeError"
    using failures_reach_process_boundary [OF demo_argv_len, of ?enc demo_world _ ?one _ _
        ?sec _ UnicodeEncodeError] rde one_absent_page_text wre fe
    by blast
  have rdf: "PdfReader ?fl demo_world (demo_argv ! 1) = Inr ?one"
    unfolding demo_argv_nth by (simp add: PdfReader_def demo_platform_def demo_world_def)
  have wrf: "fst (write_text ?fl (demo_argv ! 2) ?sec ?w1) = None"
    by (simp add: write_text_def demo_platform_def translate_newlines_lf one_absent_page_utf8)
  have ff: "stdout_fault ?fl (completion_message ?fl (demo_argv ! 2) ?one @ [10]) = Some FlushFails"
    by simp
  have q: "fst (main ?fl demo_argv demo_world) = FlushFailed"
    using failures_reach_process_boundary [OF demo_argv_len, of ?fl demo_world _ ?one _ _
        ?sec] rdf one_absent_page_text wrf ff
    by blast
  have q': "exit_status (fst (main ?fl demo_argv demo_world)) = 120"
    by (simp add: q)
  have d: "fst (main (demo_platform ?one) demo_argv demo_world) = Completed"
    by (simp add: demo_run_one_page)
  have "exit_status (fst (main (demo_platform ?one) demo_argv demo_world)) = 0
      \<longleftrightarrow> fst (main (demo_platform ?one) demo_argv demo_world) = Completed"
    using failures_reach_process_boundary [OF demo_argv_len, of "demo_platform ?one" demo_world]
    by blast
  with d have d': "exit_status (fst (main (demo_platform ?one) demo_argv demo_world)) = 0"
    by blast
  show ?thesis by (intro conjI demo_argv_len missing a a' b c p q q' d d')
qed

text \<open>
  C5, as amended. When opening the source fails or an extraction raises, the script has
  made no write call and the file system is as it was, so no file appears at the output
  path. Otherwise the full Output text is built first and passed to exactly one
  \<open>write_text\<close> call; the run touches no path but the output path, and when that call
  fails on opening the destination the file system is as it was.
\<close>

theorem failure_effects_on_files:
  assumes "3 \<le> length argv"
  shows "(PdfReader pf w (argv ! 1) = Inl e1 \<longrightarrow>
            files (snd (main pf argv w)) = files w
          \<and> fs_log (snd (main pf argv w)) = fs_log w @ [PdfReaderCall (argv ! 1)])
   \<and> (PdfReader pf w (argv ! 1) = Inr pages \<and> output_text pages = Inl e2 \<longrightarrow>
            files (snd (main pf argv w)) = files w
          \<and> fs_log (snd (main pf argv w)) = fs_log w @ [PdfReaderCall (argv ! 1)])
   \<and> (PdfReader pf w (argv ! 1) = Inr pages \<and> output_text pages = Inr out \<longrightarrow>
            fs_log (snd (main pf argv w)) =
              fs_log w @ [PdfReaderCall (argv ! 1), WriteTextCall (argv ! 2) out]
          \<and> (\<forall>p. p \<noteq> argv ! 2 \<longrightarrow> files (snd (main pf argv w)) p = files w p)
          \<and> (open_for_write pf (files w) (argv ! 2) = Some e3 \<longrightarrow>
                fst (main pf argv w) = Raised e3 \<and> files (snd (main pf argv w)) = files w))"
proof (intro conjI impI allI)
  assume "PdfReader pf w (argv ! 1) = Inl e1"
  with assms have "main pf argv w = (Raised e1, w\<lparr>fs_log := fs_log w @ [PdfReaderCall (argv ! 1)]\<rparr>)"
    by (rule main_open_fails)
  then show "files (snd (main pf argv w)) = files w"
    and "fs_log (snd (main pf argv w)) = fs_log w @ [PdfReaderCall (argv ! 1)]"
    by simp_all
next
  assume "PdfReader pf w (argv ! 1) = Inr pages \<and> output_text pages = Inl e2"
  with assms have "main pf argv w = (Raised e2, w\<lparr>fs_log := fs_log w @ [PdfReaderCall (argv ! 1)]\<rparr>)"
    by (intro main_extract_fails [of argv pf w pages]) simp_all
  then show "files (snd (main pf argv w)) = files w"
    and "fs_log (snd (main pf argv w)) = fs_log w @ [PdfReaderCall (argv ! 1)]"
    by simp_all
next
  let ?w1 = "w\<lparr>fs_log := fs_log w @ [PdfReaderCall (argv ! 1)]\<rparr>"
  assume a: "PdfReader pf w (argv ! 1) = Inr pages \<and> output_text pages = Inr out"
  obtain r w2 where wr: "write_text pf (argv ! 2) out ?w1 = (r, w2)"
    by (cases "write_text pf (argv ! 2) out ?w1")
  have run: "main pf argv w =
    (case r of
       Some e \<Rightarrow> (Raised e, w2)
     | None \<Rightarrow> process_end (print pf (completion_message pf (argv ! 2) pages) w2))"
    using assms a wr by (intro main_write) simp_all
  have w2: "w2 = snd (write_text pf (argv ! 2) out ?w1)"
    unfolding wr by simp
  have same: "files (snd (main pf argv w)) = files w2" "fs_log (snd (main pf argv w)) = fs_log w2"
    by (cases r; simp add: run report_files report_log)+
  show "fs_log (snd (main pf argv w)) =
      fs_log w @ [PdfReaderCall (argv ! 1), WriteTextCall (argv ! 2) out]"
    by (simp add: same w2 write_text_log)
  show "files (snd (main pf argv w)) p = files w p" if "p \<noteq> argv ! 2" for p
    using that by (simp add: same w2 write_text_other_files)
  {
    assume "open_for_write pf (files w) (argv ! 2) = Some e3"
    then have "write_text pf (argv ! 2) out ?w1 =
        (Some e3, ?w1\<lparr>fs_log := fs_log ?w1 @ [WriteTextCall (argv ! 2) out]\<rparr>)"
      by (intro write_text_open_fails) simp
    with wr have "r = Some e3" and "files w2 = files w"
      by auto
    then show "fst (main pf argv w) = Raised e3" and "files (snd (main pf argv w)) = files w"
      by (simp_all add: same) (simp add: run)
  }
qed

theorem failure_effects_on_files_witness:
  "3 \<le> length demo_argv
   \<and> PdfReader (demo_platform []) (demo_world\<lparr>files := Map.empty\<rparr>) (demo_argv ! 1) = Inl FileNotFoundError
   \<and> files (snd (main (demo_platform []) demo_argv (demo_world\<lparr>files := Map.empty\<rparr>))) (lit ''out.txt'') = None
   \<and> fs_log (snd (main (demo_platform []) demo_argv (demo_world\<lparr>files := Map.empty\<rparr>))) =
       [PdfReaderCall (lit ''in.pdf'')]
   \<and> output_text [Page (Inr None), Page (Inl (OtherError ''PdfReadError''))] = Inl (OtherError ''PdfReadError'')
   \<and> files (snd (main (demo_platform [Page (Inr None), Page (Inl (OtherError ''PdfReadError''))])
        demo_argv demo_world)) (lit ''out.txt'') = None
   \<and> fs_log (snd (main ((demo_platform [Page (Inr None)])\<lparr>open_for_write := \<lambda>fs p. Some (OtherError ''PermissionError'')\<rparr>)
          demo_argv demo_world)) =
       [PdfReaderCall (lit ''in.pdf''), WriteTextCall (lit ''out.txt'') (lit ''--- PAGE 1 ---\<newline>'')]
   \<and> files (snd (main ((demo_platform [Page (Inr None)])\<lparr>open_for_write := \<lambda>fs p. Some (OtherError ''PermissionError'')\<rparr>)
          demo_argv demo_world)) (lit ''out.txt'') = None
   \<and> files (snd (main ((demo_platform [Page (Inr None)])\<lparr>open_for_write := \<lambda>fs p. Some (OtherError ''PermissionError'')\<rparr>)
          demo_argv demo_world)) (lit ''in.pdf'') = Some [0x25, 0x50, 0x44, 0x46]"
proof -
  let ?nofile = "demo_world\<lparr>files := Map.empty\<rparr>"
  let ?bad = "[Page (Inr None), Page (Inl (OtherError ''PdfReadError''))]"
  let ?ro = "(demo_platform [Page (Inr None)])\<lparr>open_for_write := \<lambda>fs p. Some (OtherError ''PermissionError'')\<rparr>"
  have missing: "PdfReader (demo_platform []) ?nofile (demo_argv ! 1) = Inl FileNotFoundError"
    by (simp add: PdfReader_def)
  note i1 = failure_effects_on_files [OF demo_argv_len, of "demo_platform []" ?nofile FileNotFoundError]
  from i1 missing have "files (snd (main (demo_platform []) demo_argv ?nofile)) = files ?nofile"
    by blast
  then have a1: "files (snd (main (demo_platform []) demo_argv ?nofile)) (lit ''out.txt'') = None"
    by simp
  from i1 missing have "fs_log (snd (main (demo_platform []) demo_argv ?nofile)) =
      fs_log ?nofile @ [PdfReaderCall (demo_argv ! 1)]"
    by blast
  then have a2: "fs_log (snd (main (demo_platform []) demo_argv ?nofile)) = [PdfReaderCall (lit ''in.pdf'')]"
    by (simp only: demo_argv_nth) (simp add: demo_world_def)
  have badtext: "output_text ?bad = Inl (OtherError ''PdfReadError'')"
    by (simp add: output_text_def)
  have rdb: "PdfReader (demo_platform ?bad) demo_world (demo_argv ! 1) = Inr ?bad"
    by (simp only: demo_argv_nth demo_reader)
  have "files (snd (main (demo_platform ?bad) demo_argv demo_world)) = files demo_world"
    using failure_effects_on_files [OF demo_argv_len, of "demo_platform ?bad" demo_world _ ?bad
        "OtherError ''PdfReadError''"] rdb badtext
    by blast
  then have b: "files (snd (main (demo_platform ?bad) demo_argv demo_world)) (lit ''out.txt'') = None"
    by (simp add: demo_world_def lit_def)
  have rd: "PdfReader ?ro demo_world (demo_argv ! 1) = Inr [Page (Inr None)]"
    unfolding demo_argv_nth by (simp add: PdfReader_def demo_platform_def demo_world_def)
  have op: "open_for_write ?ro (files demo_world) (demo_argv ! 2) = Some (OtherError ''PermissionError'')"
    by (simp add: demo_platform_def)
  note i3 = failure_effects_on_files [OF demo_argv_len, of ?ro demo_world _ "[Page (Inr None)]" _
        "lit ''--- PAGE 1 ---\<newline>''" "OtherError ''PermissionError''"]
  from i3 rd one_absent_page_text have "fs_log (snd (main ?ro demo_argv demo_world)) =
      fs_log demo_world @ [PdfReaderCall (demo_argv ! 1),
        WriteTextCall (demo_argv ! 2) (lit ''--- PAGE 1 ---\<newline>'')]"
    by blast
  then have c1: "fs_log (snd (main ?ro demo_argv demo_world)) =
       [PdfReaderCall (lit ''in.pdf''), WriteTextCall (lit ''out.txt'') (lit ''--- PAGE 1 ---\<newline>'')]"
    by (simp only: demo_argv_nth) (simp add: demo_world_def)
  from i3 rd one_absent_page_text op have fl: "files (snd (main ?ro demo_argv demo_world)) = files demo_world"
    by blast
  have c2: "files (snd (main ?ro demo_argv demo_world)) (lit ''out.txt'') = None"
    unfolding fl by (simp add: demo_world_def lit_def)
  have c3: "files (snd (main ?ro demo_argv demo_world)) (lit ''in.pdf'') = Some [0x25, 0x50, 0x44, 0x46]"
    unfolding fl by (simp add: demo_world_def)
  show ?thesis by (intro conjI demo_argv_len missing a1 a2 badtext b c1 c2 c3)
qed

text \<open>
  C5 as stated fails when the write fails after the destination has been opened. With a
  disk that is full after five bytes the run ends in an error and leaves the first five
  bytes of the Output text in a file that did not exist before; with a page text holding
  a lone surrogate the codec raises after the open and leaves an empty file.
\<close>

theorem partial_file_counterexample:
  "files demo_world (lit ''out.txt'') = None
   \<and> fst (main (disk_full 5 (demo_platform [Page (Inr None)])) demo_argv demo_world) =
       Raised (OtherError ''OSError: No space left on device'')
   \<and> files (snd (main (disk_full 5 (demo_platform [Page (Inr None)])) demo_argv demo_world)) (lit ''out.txt'') =
       Some [45, 45, 45, 32, 80]
   \<and> fst (main (demo_platform [Page (Inr (Some [0xD800]))]) demo_argv demo_world) = Raised UnicodeEncodeError
   \<and> files (snd (main (demo_platform [Page (Inr (Some [0xD800]))]) demo_argv demo_world)) (lit ''out.txt'') =
       Some []"
proof -
  have none: "files demo_world (lit ''out.txt'') = None"
    by (simp add: demo_world_def lit_def)
  have run1: "main (disk_full 5 (demo_platform [Page (Inr None)])) demo_argv demo_world =
      (Raised (OtherError ''OSError: No space left on device''),
       \<lparr>files = [lit ''in.pdf'' \<mapsto> [0x25, 0x50, 0x44, 0x46], lit ''out.txt'' \<mapsto> [45, 45, 45, 32, 80]],
        stdout = [],
        fs_log = [PdfReaderCall (lit ''in.pdf''),
                  WriteTextCall (lit ''out.txt'') (lit ''--- PAGE 1 ---\<newline>'')]\<rparr>)"
    by (simp add: main_def Let_def demo_argv_def PdfReader_def demo_world_def demo_platform_def
        disk_full_def one_absent_page_text write_text_def translate_newlines_lf one_absent_page_utf8)
  have text2: "output_text [Page (Inr (Some [0xD800]))] = Inr (lit ''--- PAGE 1 ---\<newline>'' @ [0xD800])"
    by (simp add: output_text_def section_str_def str_int_def str_nat.simps lit_def)
  have enc2: "utf8_encode (lit ''--- PAGE 1 ---\<newline>'' @ [0xD800]) = Inl UnicodeEncodeError"
    by (simp add: lit_def utf8_char_def)
  have run2: "main (demo_platform [Page (Inr (Some [0xD800]))]) demo_argv demo_world =
      (Raised UnicodeEncodeError,
       \<lparr>files = [lit ''in.pdf'' \<mapsto> [0x25, 0x50, 0x44, 0x46], lit ''out.txt'' \<mapsto> []],
        stdout = [],
        fs_log = [PdfReaderCall (lit ''in.pdf''),
                  WriteTextCall (lit ''out.txt'') (lit ''--- PAGE 1 ---\<newline>'' @ [0xD800])]\<rparr>)"
    by (simp add: main_def Let_def demo_argv_def PdfReader_def demo_world_def demo_platform_def
        text2 write_text_def translate_newlines_lf enc2)
  show ?thesis
    by (simp add: run1 run2 none)
qed

end
